theory Spec2Isabelle
  imports Main "HOL-Library.Word"
begin

section \<open>Pass identities and the pointer set\<close>

text \<open>
  A pass identity is the \<^verbatim>\<open>void *\<close> returned by \<^verbatim>\<open>PassT::ID()\<close>; pointers are
  64-bit machine words here. \<^verbatim>\<open>AllPassesID\<close> is the sentinel
  \<^verbatim>\<open>(intptr_t)-3\<close> stored as a \<^verbatim>\<open>uintptr_t\<close>.
\<close>

type_synonym pass_id = "64 word"

definition AllPassesID :: pass_id where
  "AllPassesID = - 3"

text \<open>
  Modelled from the spec: \<^verbatim>\<open>SmallPtrSet<void *, 2>\<close> is declared in another header
  (llvm/ADT/SmallPtrSet.h). The spec gives its contents, "an explicit set of Analysis
  Identities"; it says nothing about the layout, which decides what erasing under a
  live iterator does. The layout here is the one of LLVM's class: a set that has never
  held more than two members is in small mode, an array whose occupied slots come
  first, in the order \<open>buckets\<close> lists them; a third member moves the set to a hash
  table for good (\<open>isSmall\<close> is false; \<open>buckets\<close> then lists the occupied buckets,
  in an order the hash function decides and nothing below depends on).
  \<^item> \<open>sps_count\<close> is membership.
  \<^item> \<open>sps_insert\<close> puts a new member into the first free slot.
  \<^item> \<open>sps_erase\<close> in small mode overwrites the member's slot with the last occupied
    slot and frees that one; in the hash table it marks the member's bucket as a
    tombstone and moves nothing.
  \<^item> An iterator is a position in the array; \<^verbatim>\<open>++\<close> steps to the next position and
    skips free slots and tombstones.
\<close>

datatype SmallPtrSet = SmallPtrSet (isSmall: bool) (buckets: "pass_id list")

definition sps_empty :: SmallPtrSet where
  "sps_empty = SmallPtrSet True []"

definition sps_count :: "SmallPtrSet \<Rightarrow> pass_id \<Rightarrow> bool" where
  "sps_count S p = (p \<in> set (buckets S))"

definition sps_insert :: "SmallPtrSet \<Rightarrow> pass_id \<Rightarrow> SmallPtrSet" where
  "sps_insert S p =
     (if sps_count S p then S
      else if isSmall S \<and> length (buckets S) < 2 then SmallPtrSet True (buckets S @ [p])
      else SmallPtrSet False (buckets S @ [p]))"

definition sps_erase :: "SmallPtrSet \<Rightarrow> pass_id \<Rightarrow> SmallPtrSet" where
  "sps_erase S p =
     (if \<not> sps_count S p then S
      else if isSmall S
      then SmallPtrSet True
             (butlast ((buckets S)[length (takeWhile (\<lambda>q. q \<noteq> p) (buckets S))
                                     := last (buckets S)]))
      else SmallPtrSet False (removeAll p (buckets S)))"

lemma length_sps_erase:
  "sps_count S p \<Longrightarrow> length (buckets (sps_erase S p)) < length (buckets S)"
proof (cases "isSmall S")
  case True
  assume "sps_count S p"
  then have "buckets S \<noteq> []" by (auto simp: sps_count_def)
  with True \<open>sps_count S p\<close> show ?thesis
    by (simp add: sps_erase_def)
next
  case False
  assume "sps_count S p"
  with False show ?thesis
    by (simp add: sps_erase_def sps_count_def length_removeAll_less)
qed

section \<open>PreservedAnalyses\<close>

record PreservedAnalyses =
  PreservedPassIDs :: SmallPtrSet

definition none :: PreservedAnalyses where
  "none = \<lparr>PreservedPassIDs = sps_empty\<rparr>"

definition all :: PreservedAnalyses where
  "all = \<lparr>PreservedPassIDs = sps_insert sps_empty AllPassesID\<rparr>"

definition areAllPreserved :: "PreservedAnalyses \<Rightarrow> bool" where
  "areAllPreserved PA = sps_count (PreservedPassIDs PA) AllPassesID"

text \<open>\<^verbatim>\<open>preserve<PassT>()\<close>; the template argument is represented by \<^verbatim>\<open>PassT::ID()\<close>.\<close>

definition preserve :: "pass_id \<Rightarrow> PreservedAnalyses \<Rightarrow> PreservedAnalyses" where
  "preserve PassID PA =
     (if \<not> areAllPreserved PA
      then PA\<lparr>PreservedPassIDs := sps_insert (PreservedPassIDs PA) PassID\<rparr>
      else PA)"

text \<open>
  The \<^verbatim>\<open>for\<close> loop of \<^verbatim>\<open>intersect\<close>, run on the receiver's set itself. \<open>I\<close> is the
  position of the iterator, \<open>ArgIDs\<close> the argument's set, \<open>S\<close> the receiver's set as it
  is now; the loop ends when the iterator has passed the last occupied slot. After
  \<^verbatim>\<open>PreservedPassIDs.erase(*I)\<close> the iterator still stands on position \<open>I\<close> and
  \<^verbatim>\<open>++I\<close> leaves it: in small mode the member that \<open>erase\<close> moved into position \<open>I\<close>
  is stepped over; in the hash table position \<open>I\<close> is a tombstone, and the next
  occupied bucket is the one that follows it (position \<open>I\<close> of the shortened list).
\<close>

function intersect_loop :: "nat \<Rightarrow> SmallPtrSet \<Rightarrow> SmallPtrSet \<Rightarrow> SmallPtrSet" where
  "intersect_loop I ArgIDs S =
     (if I < length (buckets S)
      then (if \<not> sps_count ArgIDs (buckets S ! I)
            then intersect_loop (if isSmall S then I + 1 else I) ArgIDs
                   (sps_erase S (buckets S ! I))
            else intersect_loop (I + 1) ArgIDs S)
      else S)"
  by pat_completeness auto
termination
proof (relation "measure (\<lambda>(I, ArgIDs, S). length (buckets S) - I)")
  show "wf (measure (\<lambda>(I, ArgIDs, S). length (buckets S) - I))" by simp
next
  fix I :: nat and ArgIDs S :: SmallPtrSet
  assume "I < length (buckets S)"
  then have "length (buckets (sps_erase S (buckets S ! I))) < length (buckets S)"
    by (intro length_sps_erase) (simp add: sps_count_def)
  with \<open>I < length (buckets S)\<close>
  show "((if isSmall S then I + 1 else I, ArgIDs, sps_erase S (buckets S ! I)), I, ArgIDs, S)
          \<in> measure (\<lambda>(I, ArgIDs, S). length (buckets S) - I)"
    by auto
next
  fix I :: nat and ArgIDs S :: SmallPtrSet
  assume "I < length (buckets S)"
  then show "((I + 1, ArgIDs, S), I, ArgIDs, S)
               \<in> measure (\<lambda>(I, ArgIDs, S). length (buckets S) - I)"
    by auto
qed

text \<open>
  \<^verbatim>\<open>intersect\<close>; the assignment in the second branch copies the argument's set as it
  is, its mode included.
\<close>

definition intersect :: "PreservedAnalyses \<Rightarrow> PreservedAnalyses \<Rightarrow> PreservedAnalyses" where
  "intersect PA Arg =
     (if areAllPreserved Arg then PA
      else if areAllPreserved PA then PA\<lparr>PreservedPassIDs := PreservedPassIDs Arg\<rparr>
      else PA\<lparr>PreservedPassIDs :=
                intersect_loop 0 (PreservedPassIDs Arg) (PreservedPassIDs PA)\<rparr>)"

definition preserved :: "PreservedAnalyses \<Rightarrow> pass_id \<Rightarrow> bool" where
  "preserved PA PassID =
     (sps_count (PreservedPassIDs PA) AllPassesID \<or> sps_count (PreservedPassIDs PA) PassID)"

section \<open>Capability adapters\<close>

text \<open>
  \<^verbatim>\<open>assert\<close> is modelled as compiled in (no \<^verbatim>\<open>NDEBUG\<close>): a failed assertion aborts
  the program, which the model returns as an error carrying the assertion's message.
\<close>

datatype error = AssertionFailed string

text \<open>
  A concrete analysis result (\<^verbatim>\<open>typename PassT::Result\<close>): its payload and, when the
  result type has a member function \<^verbatim>\<open>invalidate\<close> callable on a unit and a preserved
  set and returning \<^verbatim>\<open>bool\<close>, that member: whether it is declared \<^verbatim>\<open>const\<close>,
  whether it is inherited from a base class rather than declared by the result type
  itself, and its body, taken as a verdict function of the unit and the preserved set.
\<close>

record 'u invalidate_member =
  member_const :: bool
  member_inherited :: bool
  member_body :: "'u \<Rightarrow> PreservedAnalyses \<Rightarrow> bool"

record ('u, 'v) ResultT =
  result_value :: 'v
  result_invalidate :: "'u invalidate_member option"

text \<open>
  The SFINAE probe. \<^verbatim>\<open>Checker<T, &T::invalidate>\<close> takes a non-type template argument
  of type \<^verbatim>\<open>bool (T::*)(IRUnitT *, const PreservedAnalyses &)\<close>, to which no
  conversion applies: \<^verbatim>\<open>Value\<close> is 1 only for a member of exactly that type, so
  neither for a \<^verbatim>\<open>const\<close> member nor for one inherited from a base class (whose
  pointer is a pointer to a member of the base).
\<close>

definition ResultHasInvalidateMethod :: "('u, 'v) ResultT \<Rightarrow> bool" where
  "ResultHasInvalidateMethod R =
     (case result_invalidate R of
        None \<Rightarrow> False
      | Some m \<Rightarrow> \<not> member_const m \<and> \<not> member_inherited m)"

text \<open>
  The two specialisations of \<^verbatim>\<open>AnalysisResultModel<IRUnitT, PassT, ResultT,
  HasInvalidateHandler>\<close>. The template argument \<^verbatim>\<open>PassT\<close> is kept as
  \<^verbatim>\<open>PassT::ID()\<close>. The specialisation for \<^verbatim>\<open>false\<close> wraps any result; the one for
  \<^verbatim>\<open>true\<close> compiles only for a result with an \<^verbatim>\<open>invalidate\<close> member, and holds the
  result as its payload and that member.
\<close>

datatype ('u, 'v) AnalysisResultModel =
    AnalysisResultModel_false pass_id "('u, 'v) ResultT"
  | AnalysisResultModel_true pass_id 'v "'u invalidate_member"

fun AnalysisResultModel_invalidate ::
  "('u, 'v) AnalysisResultModel \<Rightarrow> 'u \<Rightarrow> PreservedAnalyses \<Rightarrow> bool" where
  "AnalysisResultModel_invalidate (AnalysisResultModel_false PassID R) IR PA =
     (\<not> preserved PA PassID)"
| "AnalysisResultModel_invalidate (AnalysisResultModel_true PassID R m) IR PA =
     member_body m IR PA"

text \<open>The member \<^verbatim>\<open>Result\<close> of either specialisation.\<close>

fun Result :: "('u, 'v) AnalysisResultModel \<Rightarrow> ('u, 'v) ResultT" where
  "Result (AnalysisResultModel_false PassID R) = R"
| "Result (AnalysisResultModel_true PassID R m) =
     \<lparr>result_value = R, result_invalidate = Some m\<rparr>"

text \<open>
  \<^verbatim>\<open>ResultModelT\<close>: the specialisation chosen by \<^verbatim>\<open>ResultHasInvalidateMethod<IRUnitT,
  Result>::Value\<close>, constructed from a result.
\<close>

definition ResultModelT :: "pass_id \<Rightarrow> ('u, 'v) ResultT \<Rightarrow> ('u, 'v) AnalysisResultModel" where
  "ResultModelT PassID R =
     (if ResultHasInvalidateMethod R
      then (case result_invalidate R of
              None \<Rightarrow> AnalysisResultModel_false PassID R
            | Some m \<Rightarrow> AnalysisResultModel_true PassID (result_value R) m)
      else AnalysisResultModel_false PassID R)"

text \<open>
  An analysis pass \<^verbatim>\<open>PassT\<close>: its \<^verbatim>\<open>ID()\<close>, and its \<^verbatim>\<open>run\<close>, which is not
  \<^verbatim>\<open>const\<close> and so may change the pass object: \<open>pass_state\<close> is the object's
  state, \<open>pass_run\<close> gives the result and the state after the call.
\<close>

record ('u, 'v, 's) AnalysisPass =
  ID :: pass_id
  pass_state :: 's
  pass_run :: "'s \<Rightarrow> 'u \<Rightarrow> ('u, 'v) ResultT \<times> 's"

text \<open>\<^verbatim>\<open>AnalysisPassModel<PassT>::run\<close>: \<^verbatim>\<open>new ResultModelT(Pass.run(IR))\<close>.\<close>

definition AnalysisPassModel_run ::
  "('u, 'v, 's) AnalysisPass \<Rightarrow> 'u \<Rightarrow> ('u, 'v) AnalysisResultModel \<times> ('u, 'v, 's) AnalysisPass" where
  "AnalysisPassModel_run Pass IR =
     (case pass_run Pass (pass_state Pass) IR of
        (R, s') \<Rightarrow> (ResultModelT (ID Pass) R, Pass\<lparr>pass_state := s'\<rparr>))"

section \<open>ModuleAnalysisManager\<close>

record ('m, 'v, 's) ModuleAnalysisManager =
  ModuleAnalysisPasses :: "pass_id \<rightharpoonup> ('m, 'v, 's) AnalysisPass"
  ModuleAnalysisResults :: "pass_id \<rightharpoonup> ('m, 'v) AnalysisResultModel"

text \<open>
  Modelled from the spec: \<^verbatim>\<open>ModuleAnalysisManager::getResultImpl\<close> is declared in the
  header and defined elsewhere. "If a cached result exists for (identity, unit), return
  it; otherwise, require the identity be registered (fatal if not), run the analysis
  against unit, store the result, and return it." The cache of the module-level manager
  is keyed by the identity alone, as \<^verbatim>\<open>ModuleAnalysisResultMapT\<close> declares it.
\<close>

definition ModuleAnalysisManager_getResultImpl ::
  "('m, 'v, 's) ModuleAnalysisManager \<Rightarrow> pass_id \<Rightarrow> 'm
     \<Rightarrow> error + (('m, 'v) AnalysisResultModel \<times> ('m, 'v, 's) ModuleAnalysisManager)" where
  "ModuleAnalysisManager_getResultImpl MAM PassID M =
     (case ModuleAnalysisResults MAM PassID of
        Some RC \<Rightarrow> Inr (RC, MAM)
      | None \<Rightarrow>
          (case ModuleAnalysisPasses MAM PassID of
             None \<Rightarrow> Inl (AssertionFailed ''analysis pass not registered'')
           | Some Pass \<Rightarrow>
               (case AnalysisPassModel_run Pass M of
                  (RC, Pass') \<Rightarrow>
                    Inr (RC, MAM\<lparr>ModuleAnalysisPasses := (ModuleAnalysisPasses MAM)(PassID \<mapsto> Pass'),
                                 ModuleAnalysisResults := (ModuleAnalysisResults MAM)(PassID \<mapsto> RC)\<rparr>))))"

text \<open>\<^verbatim>\<open>getResult<PassT>(M)\<close>; \<^verbatim>\<open>PassT\<close> is given by its \<^verbatim>\<open>ID()\<close>.\<close>

definition ModuleAnalysisManager_getResult ::
  "('m, 'v, 's) ModuleAnalysisManager \<Rightarrow> pass_id \<Rightarrow> 'm
     \<Rightarrow> error + (('m, 'v) ResultT \<times> ('m, 'v, 's) ModuleAnalysisManager)" where
  "ModuleAnalysisManager_getResult MAM PassID M =
     (if ModuleAnalysisPasses MAM PassID = None
      then Inl (AssertionFailed ''This analysis pass was not registered prior to being queried'')
      else (case ModuleAnalysisManager_getResultImpl MAM PassID M of
              Inl e \<Rightarrow> Inl e
            | Inr (ResultConcept, MAM') \<Rightarrow> Inr (Result ResultConcept, MAM')))"

definition ModuleAnalysisManager_registerPass ::
  "('m, 'v, 's) ModuleAnalysisManager \<Rightarrow> ('m, 'v, 's) AnalysisPass
     \<Rightarrow> error + ('m, 'v, 's) ModuleAnalysisManager" where
  "ModuleAnalysisManager_registerPass MAM Pass =
     (if ModuleAnalysisPasses MAM (ID Pass) \<noteq> None
      then Inl (AssertionFailed ''Registered the same analysis pass twice!'')
      else Inr (MAM\<lparr>ModuleAnalysisPasses := (ModuleAnalysisPasses MAM)(ID Pass \<mapsto> Pass)\<rparr>))"

text \<open>
  Modelled from the spec: \<^verbatim>\<open>ModuleAnalysisManager::invalidateImpl\<close> is declared in the
  header and defined elsewhere. "Explicit, unconditional removal of one cached entry."
\<close>

definition ModuleAnalysisManager_invalidateImpl ::
  "('m, 'v, 's) ModuleAnalysisManager \<Rightarrow> pass_id \<Rightarrow> 'm \<Rightarrow> ('m, 'v, 's) ModuleAnalysisManager" where
  "ModuleAnalysisManager_invalidateImpl MAM PassID M =
     MAM\<lparr>ModuleAnalysisResults := (ModuleAnalysisResults MAM)(PassID := None)\<rparr>"

text \<open>\<^verbatim>\<open>invalidate<PassT>(M)\<close>.\<close>

definition ModuleAnalysisManager_invalidate_pass ::
  "('m, 'v, 's) ModuleAnalysisManager \<Rightarrow> pass_id \<Rightarrow> 'm
     \<Rightarrow> error + ('m, 'v, 's) ModuleAnalysisManager" where
  "ModuleAnalysisManager_invalidate_pass MAM PassID M =
     (if ModuleAnalysisPasses MAM PassID = None
      then Inl (AssertionFailed ''This analysis pass was not registered prior to being invalidated'')
      else Inr (ModuleAnalysisManager_invalidateImpl MAM PassID M))"


section \<open>FunctionAnalysisManager\<close>

text \<open>
  \<open>FunctionAnalysisResultLists\<close> maps a function to the list of its cached results,
  each with the identity of its analysis. The index \<^verbatim>\<open>FunctionAnalysisResults\<close> of the
  class maps (identity, function) to the iterator of that entry in the function's list;
  here it is the lookup \<open>FunctionAnalysisResults\<close> in that list.
\<close>

record ('f, 'v, 's) FunctionAnalysisManager =
  FunctionAnalysisPasses :: "pass_id \<rightharpoonup> ('f, 'v, 's) AnalysisPass"
  FunctionAnalysisResultLists :: "'f \<rightharpoonup> (pass_id \<times> ('f, 'v) AnalysisResultModel) list"

definition FunctionAnalysisResults ::
  "('f, 'v, 's) FunctionAnalysisManager \<Rightarrow> pass_id \<times> 'f \<Rightarrow> ('f, 'v) AnalysisResultModel option" where
  "FunctionAnalysisResults FAM key =
     (case FunctionAnalysisResultLists FAM (snd key) of
        None \<Rightarrow> None
      | Some ResultList \<Rightarrow> map_of ResultList (fst key))"

text \<open>
  Modelled from the spec: \<^verbatim>\<open>FunctionAnalysisManager::getResultImpl\<close> is declared in the
  header and defined elsewhere. "If a cached result exists for (identity, unit), return
  it; otherwise, require the identity be registered (fatal if not), run the analysis
  against unit, store the result, and return it." A new result goes to the end of the
  function's list.
\<close>

definition FunctionAnalysisManager_getResultImpl ::
  "('f, 'v, 's) FunctionAnalysisManager \<Rightarrow> pass_id \<Rightarrow> 'f
     \<Rightarrow> error + (('f, 'v) AnalysisResultModel \<times> ('f, 'v, 's) FunctionAnalysisManager)" where
  "FunctionAnalysisManager_getResultImpl FAM PassID F =
     (case FunctionAnalysisResults FAM (PassID, F) of
        Some RC \<Rightarrow> Inr (RC, FAM)
      | None \<Rightarrow>
          (case FunctionAnalysisPasses FAM PassID of
             None \<Rightarrow> Inl (AssertionFailed ''analysis pass not registered'')
           | Some Pass \<Rightarrow>
               (case AnalysisPassModel_run Pass F of
                  (RC, Pass') \<Rightarrow>
                    Inr (RC, FAM\<lparr>FunctionAnalysisPasses := (FunctionAnalysisPasses FAM)(PassID \<mapsto> Pass'),
                                 FunctionAnalysisResultLists :=
                                   (FunctionAnalysisResultLists FAM)
                                     (F \<mapsto> (case FunctionAnalysisResultLists FAM F of
                                                None \<Rightarrow> []
                                              | Some ResultList \<Rightarrow> ResultList) @ [(PassID, RC)])\<rparr>))))"

text \<open>\<^verbatim>\<open>getResult<PassT>(F)\<close>; \<^verbatim>\<open>PassT\<close> is given by its \<^verbatim>\<open>ID()\<close>.\<close>

definition FunctionAnalysisManager_getResult ::
  "('f, 'v, 's) FunctionAnalysisManager \<Rightarrow> pass_id \<Rightarrow> 'f
     \<Rightarrow> error + (('f, 'v) ResultT \<times> ('f, 'v, 's) FunctionAnalysisManager)" where
  "FunctionAnalysisManager_getResult FAM PassID F =
     (if FunctionAnalysisPasses FAM PassID = None
      then Inl (AssertionFailed ''This analysis pass was not registered prior to being queried'')
      else (case FunctionAnalysisManager_getResultImpl FAM PassID F of
              Inl e \<Rightarrow> Inl e
            | Inr (ResultConcept, FAM') \<Rightarrow> Inr (Result ResultConcept, FAM')))"

definition FunctionAnalysisManager_registerPass ::
  "('f, 'v, 's) FunctionAnalysisManager \<Rightarrow> ('f, 'v, 's) AnalysisPass
     \<Rightarrow> error + ('f, 'v, 's) FunctionAnalysisManager" where
  "FunctionAnalysisManager_registerPass FAM Pass =
     (if FunctionAnalysisPasses FAM (ID Pass) \<noteq> None
      then Inl (AssertionFailed ''Registered the same analysis pass twice!'')
      else Inr (FAM\<lparr>FunctionAnalysisPasses := (FunctionAnalysisPasses FAM)(ID Pass \<mapsto> Pass)\<rparr>))"

text \<open>
  Modelled from the spec: \<^verbatim>\<open>FunctionAnalysisManager::invalidateImpl\<close> is declared in the
  header and defined elsewhere. "Explicit, unconditional removal of one cached entry."
\<close>

definition FunctionAnalysisManager_invalidateImpl ::
  "('f, 'v, 's) FunctionAnalysisManager \<Rightarrow> pass_id \<Rightarrow> 'f \<Rightarrow> ('f, 'v, 's) FunctionAnalysisManager" where
  "FunctionAnalysisManager_invalidateImpl FAM PassID F =
     (case FunctionAnalysisResultLists FAM F of
        None \<Rightarrow> FAM
      | Some ResultList \<Rightarrow>
          FAM\<lparr>FunctionAnalysisResultLists :=
                 (FunctionAnalysisResultLists FAM)
                   (F \<mapsto> filter (\<lambda>entry. fst entry \<noteq> PassID) ResultList)\<rparr>)"

text \<open>\<^verbatim>\<open>invalidate<PassT>(F)\<close>.\<close>

definition FunctionAnalysisManager_invalidate_pass ::
  "('f, 'v, 's) FunctionAnalysisManager \<Rightarrow> pass_id \<Rightarrow> 'f
     \<Rightarrow> error + ('f, 'v, 's) FunctionAnalysisManager" where
  "FunctionAnalysisManager_invalidate_pass FAM PassID F =
     (if FunctionAnalysisPasses FAM PassID = None
      then Inl (AssertionFailed ''This analysis pass was not registered prior to being invalidated'')
      else Inr (FunctionAnalysisManager_invalidateImpl FAM PassID F))"


text \<open>
  Modelled from the spec: \<^verbatim>\<open>FunctionAnalysisManager::clear\<close> is declared in the header
  and defined elsewhere. It "drops all cached results for all subroutine instances,
  without running any result's invalidate logic".
\<close>

definition FunctionAnalysisManager_clear ::
  "('f, 'v, 's) FunctionAnalysisManager \<Rightarrow> ('f, 'v, 's) FunctionAnalysisManager" where
  "FunctionAnalysisManager_clear FAM = FAM\<lparr>FunctionAnalysisResultLists := Map.empty\<rparr>"

section \<open>FunctionAnalysisModuleProxy\<close>

text \<open>
  Modelled from the spec: \<^verbatim>\<open>FunctionAnalysisModuleProxy::Result::invalidate\<close> is declared
  in the header and defined elsewhere. "If the proxy's own identity is not preserved by
  preservedSet, the proxy calls clear() on the subroutine-level manager and reports
  itself invalid. If the proxy's own identity is preserved, the proxy reports itself
  still valid and performs no further action." (The header's comment on the method adds
  that the analyses of the function-level manager are potentially invalidated whatever
  the verdict on the proxy; the spec leaves that to the adaptor, and so does this
  definition.) The result object holds a reference to
  the function-level manager; the manager's state is passed in and returned. The first
  argument is \<^verbatim>\<open>FunctionAnalysisModuleProxy::ID()\<close>, the address of the static
  \<^verbatim>\<open>PassID\<close>.
\<close>

definition FunctionAnalysisModuleProxy_Result_invalidate ::
  "pass_id \<Rightarrow> ('f, 'v, 's) FunctionAnalysisManager \<Rightarrow> 'm \<Rightarrow> PreservedAnalyses
     \<Rightarrow> bool \<times> ('f, 'v, 's) FunctionAnalysisManager" where
  "FunctionAnalysisModuleProxy_Result_invalidate ProxyID FAM M PA =
     (if \<not> preserved PA ProxyID then (True, FunctionAnalysisManager_clear FAM)
      else (False, FAM))"

section \<open>ModuleToFunctionPassAdaptor\<close>

text \<open>
  A module is the sequence of its functions, in the order of \<^verbatim>\<open>Module::iterator\<close>. A
  function pass \<^verbatim>\<open>FunctionPassT\<close> has a \<^verbatim>\<open>run\<close> that returns a
  \<^verbatim>\<open>PreservedAnalyses\<close> and may change the pass object.
\<close>

type_synonym 'f Module = "'f list"

record ('f, 'p) FunctionPassT =
  fp_state :: 'p
  fp_run :: "'p \<Rightarrow> 'f \<Rightarrow> PreservedAnalyses \<times> 'p"

definition FunctionPassT_run ::
  "('f, 'p) FunctionPassT \<Rightarrow> 'f \<Rightarrow> PreservedAnalyses \<times> ('f, 'p) FunctionPassT" where
  "FunctionPassT_run P F =
     (case fp_run P (fp_state P) F of (PA, p') \<Rightarrow> (PA, P\<lparr>fp_state := p'\<rparr>))"

record ('f, 'p, 'v, 's) ModuleToFunctionPassAdaptor =
  Adaptor_Pass :: "('f, 'p) FunctionPassT"
  Adaptor_MAM :: "('f Module, 'v, 's) ModuleAnalysisManager option"

text \<open>The \<^verbatim>\<open>for\<close> loop of \<^verbatim>\<open>run\<close> over the functions that are left.\<close>

fun adaptor_loop ::
  "'f list \<Rightarrow> ('f, 'p) FunctionPassT \<Rightarrow> PreservedAnalyses
     \<Rightarrow> PreservedAnalyses \<times> ('f, 'p) FunctionPassT" where
  "adaptor_loop [] P PA = (PA, P)"
| "adaptor_loop (I # rest) P PA =
     (case FunctionPassT_run P I of
        (PassPA, P') \<Rightarrow> adaptor_loop rest P' (intersect PA PassPA))"

text \<open>
  \<^verbatim>\<open>ModuleToFunctionPassAdaptor::run\<close>; the overload of \<^verbatim>\<open>intersect\<close> for a temporary
  has the body of the one for a reference. The fields \<^verbatim>\<open>Pass\<close> and \<^verbatim>\<open>MAM\<close> are
  \<open>Adaptor_Pass\<close> and \<open>Adaptor_MAM\<close>, the latter the manager the pointer refers to
  (\<open>None\<close> for the null pointer); the first argument is
  \<^verbatim>\<open>FunctionAnalysisModuleProxy::ID()\<close>.
\<close>

definition ModuleToFunctionPassAdaptor_run ::
  "pass_id \<Rightarrow> ('f, 'p, 'v, 's) ModuleToFunctionPassAdaptor \<Rightarrow> 'f Module
     \<Rightarrow> error + (PreservedAnalyses \<times> ('f, 'p, 'v, 's) ModuleToFunctionPassAdaptor)" where
  "ModuleToFunctionPassAdaptor_run ProxyID A M =
     (case (case Adaptor_MAM A of
              None \<Rightarrow> Inr None
            | Some mam \<Rightarrow>
                (case ModuleAnalysisManager_getResult mam ProxyID M of
                   Inl e \<Rightarrow> Inl e
                 | Inr (proxy_result, mam') \<Rightarrow> Inr (Some mam'))) of
        Inl e \<Rightarrow> Inl e
      | Inr MAM' \<Rightarrow>
          (case adaptor_loop M (Adaptor_Pass A) all of
             (PA, P') \<Rightarrow>
               Inr (preserve ProxyID PA, \<lparr>Adaptor_Pass = P', Adaptor_MAM = MAM'\<rparr>)))"

text \<open>
  Instrumentation for stating how often and in which order a function pass is run: the
  pass \<open>logged P\<close> behaves as \<open>P\<close> and appends every function it is run on to a log.
\<close>

definition logged :: "('f, 'p) FunctionPassT \<Rightarrow> ('f, 'p \<times> 'f list) FunctionPassT" where
  "logged P =
     \<lparr>fp_state = (fp_state P, []),
      fp_run = (\<lambda>sl F. case fp_run P (fst sl) F of (PA, p') \<Rightarrow> (PA, (p', snd sl @ [F])))\<rparr>"

text \<open>
  The preserved sets a function pass returns on the functions of a list, run in order,
  and the pass after these runs.
\<close>

fun run_over :: "('f, 'p) FunctionPassT \<Rightarrow> 'f list \<Rightarrow> PreservedAnalyses list \<times> ('f, 'p) FunctionPassT" where
  "run_over P [] = ([], P)"
| "run_over P (F # Fs) =
     (case FunctionPassT_run P F of
        (PA, P') \<Rightarrow> (case run_over P' Fs of (PAs, P'') \<Rightarrow> (PA # PAs, P'')))"

text \<open>
  Instrumentation for stating how often an analysis is run: the analysis \<open>counting P\<close>
  behaves as \<open>P\<close> and counts the calls of its \<open>run\<close>.
\<close>

definition counting :: "('u, 'v, 's) AnalysisPass \<Rightarrow> ('u, 'v, 's \<times> nat) AnalysisPass" where
  "counting P =
     \<lparr>ID = ID P, pass_state = (pass_state P, 0),
      pass_run = (\<lambda>sn IR. case pass_run P (fst sn) IR of (R, s') \<Rightarrow> (R, (s', Suc (snd sn))))\<rparr>"

section \<open>Example passes\<close>

text \<open>
  An analysis over numbered units whose result is the successor of the unit's number, a
  proxy-like analysis over modules of named functions, and a function pass that always
  returns \<open>none()\<close>.
\<close>

definition successor_analysis :: "(nat, nat, unit) AnalysisPass" where
  "successor_analysis =
     \<lparr>ID = 64, pass_state = (),
      pass_run = (\<lambda>s IR. (\<lparr>result_value = Suc IR, result_invalidate = None\<rparr>, s))\<rparr>"

definition proxy_stub :: "(string Module, nat, unit) AnalysisPass" where
  "proxy_stub =
     \<lparr>ID = 128, pass_state = (),
      pass_run = (\<lambda>s M. (\<lparr>result_value = 0, result_invalidate = None\<rparr>, s))\<rparr>"

definition none_pass :: "(string, unit) FunctionPassT" where
  "none_pass = \<lparr>fp_state = (), fp_run = (\<lambda>s F. (none, s))\<rparr>"

text \<open>
  A function pass that preserves the analyses 1 and 2 on the function named \<open>F1\<close> and
  the analysis 3 on any other function.
\<close>

definition selective_pass :: "(string, unit) FunctionPassT" where
  "selective_pass =
     \<lparr>fp_state = (),
      fp_run = (\<lambda>s F. (if F = ''F1'' then preserve 2 (preserve 1 none)
                           else preserve 3 none, s))\<rparr>"






section \<open>Properties of PreservedAnalyses\<close>

lemma preserved_all: "preserved all p"
  by (simp add: preserved_def all_def sps_insert_def sps_count_def sps_empty_def)

lemma areAllPreserved_all: "areAllPreserved all"
  by (simp add: areAllPreserved_def all_def sps_insert_def sps_count_def sps_empty_def)

lemma areAllPreserved_preserved: "areAllPreserved PA \<Longrightarrow> preserved PA p"
  by (simp add: areAllPreserved_def preserved_def)

text \<open>
  C4. The claim is that after \<open>A.intersect(B)\<close> an identity is preserved in \<open>A\<close>
  exactly when it was preserved in the original \<open>A\<close> and is preserved in \<open>B\<close>. The
  loop of \<open>intersect\<close> erases from the set it iterates over, and does not do that:
  for \<open>A\<close> preserving the analyses 1 and 2 and \<open>B\<close> preserving the analysis 3, the
  loop erases 1, which moves 2 into the slot the iterator stands on, and steps over it.
  \<open>A\<close> still preserves 2 afterwards, which \<open>B\<close> does not preserve.
\<close>

theorem intersect_keeps_unpreserved_member:
  "preserve 2 (preserve 1 none) = \<lparr>PreservedPassIDs = SmallPtrSet True [1, 2]\<rparr>
   \<and> preserve 3 none = \<lparr>PreservedPassIDs = SmallPtrSet True [3]\<rparr>
   \<and> intersect (preserve 2 (preserve 1 none)) (preserve 3 none)
       = \<lparr>PreservedPassIDs = SmallPtrSet True [2]\<rparr>
   \<and> preserved (intersect (preserve 2 (preserve 1 none)) (preserve 3 none)) 2
   \<and> preserved (preserve 2 (preserve 1 none)) 2
   \<and> \<not> preserved (preserve 3 none) 2"
  by (simp add: intersect_def preserved_def preserve_def none_def areAllPreserved_def
      sps_count_def sps_insert_def sps_erase_def sps_empty_def AllPassesID_def)

text \<open>
  C6. \<open>all()\<close> is the identity element of \<open>intersect\<close>: intersecting any set with
  \<open>all()\<close> leaves it as it was, and intersecting a set in the All state with \<open>B\<close>
  gives a set with exactly the verdicts of \<open>B\<close> (and \<open>B\<close> itself when the
  receiver is \<open>all()\<close> and \<open>B\<close> is not in the All state).
\<close>

theorem intersect_all_identity:
  "intersect A all = A
   \<and> (areAllPreserved A \<longrightarrow> preserved (intersect A B) p = preserved B p)
   \<and> preserved (intersect all B) p = preserved B p
   \<and> (\<not> areAllPreserved B \<longrightarrow> intersect all B = B)"
proof -
  have one: "intersect A all = A"
    by (simp add: intersect_def areAllPreserved_all)
  have two: "areAllPreserved A' \<longrightarrow> preserved (intersect A' B) p = preserved B p" for A'
    by (auto simp: intersect_def preserved_def areAllPreserved_def)
  have four: "\<not> areAllPreserved B \<longrightarrow> intersect all B = B"
    by (simp add: intersect_def areAllPreserved_all)
  from one two [of A] two [of all] four show ?thesis
    by (simp add: areAllPreserved_all)
qed

theorem intersect_all_identity_witness:
  "intersect \<lparr>PreservedPassIDs = SmallPtrSet True [7, 9]\<rparr> all
     = \<lparr>PreservedPassIDs = SmallPtrSet True [7, 9]\<rparr>
   \<and> areAllPreserved all
   \<and> intersect all \<lparr>PreservedPassIDs = SmallPtrSet True [7, 9]\<rparr>
     = \<lparr>PreservedPassIDs = SmallPtrSet True [7, 9]\<rparr>
   \<and> preserved (intersect all \<lparr>PreservedPassIDs = SmallPtrSet True [7, 9]\<rparr>) 9
   \<and> \<not> preserved (intersect all \<lparr>PreservedPassIDs = SmallPtrSet True [7, 9]\<rparr>) 8"
  using intersect_all_identity
    [of "\<lparr>PreservedPassIDs = SmallPtrSet True [7, 9]\<rparr>"
        "\<lparr>PreservedPassIDs = SmallPtrSet True [7, 9]\<rparr>" 9]
  by (simp add: intersect_def preserved_def areAllPreserved_def sps_count_def all_def
      sps_insert_def sps_empty_def AllPassesID_def)

section \<open>Properties of the result wrappers\<close>

lemma ResultModelT_default:
  "\<not> ResultHasInvalidateMethod R \<Longrightarrow>
   ResultModelT PassID R = AnalysisResultModel_false PassID R"
  by (simp add: ResultModelT_def)


text \<open>
  C2. For a result type without an \<open>invalidate\<close> member, the wrapper's
  \<open>invalidate\<close> returns true exactly when \<open>PA.preserved(PassT::ID())\<close> is false, for
  every unit and every preserved set; this holds in particular for the wrapper that
  \<open>AnalysisPassModel::run\<close> builds, with the identity of the analysis that ran.
\<close>

theorem default_invalidate_iff_not_preserved:
  "(\<not> ResultHasInvalidateMethod R \<longrightarrow>
      AnalysisResultModel_invalidate (ResultModelT PassID R) IR PA = (\<not> preserved PA PassID))
   \<and> (\<not> ResultHasInvalidateMethod (fst (pass_run P (pass_state P) IR0)) \<longrightarrow>
      AnalysisResultModel_invalidate (fst (AnalysisPassModel_run P IR0)) IR PA
        = (\<not> preserved PA (ID P)))"
  by (auto simp: ResultModelT_default AnalysisPassModel_run_def split: prod.splits)

theorem default_invalidate_iff_not_preserved_witness:
  "\<not> ResultHasInvalidateMethod \<lparr>result_value = (5::nat), result_invalidate = None\<rparr>
   \<and> AnalysisResultModel_invalidate
        (ResultModelT 16 \<lparr>result_value = (5::nat), result_invalidate = None\<rparr>) (0::nat) none
   \<and> \<not> AnalysisResultModel_invalidate
        (ResultModelT 16 \<lparr>result_value = (5::nat), result_invalidate = None\<rparr>) (0::nat)
        (preserve 16 none)
   \<and> \<not> AnalysisResultModel_invalidate
        (ResultModelT 16 \<lparr>result_value = (5::nat), result_invalidate = None\<rparr>) (0::nat) all"
  using default_invalidate_iff_not_preserved [THEN conjunct1,
      of "\<lparr>result_value = (5::nat), result_invalidate = None\<rparr>" 16 "0::nat" none]
    default_invalidate_iff_not_preserved [THEN conjunct1,
      of "\<lparr>result_value = (5::nat), result_invalidate = None\<rparr>" 16 "0::nat" "preserve 16 none"]
    default_invalidate_iff_not_preserved [THEN conjunct1,
      of "\<lparr>result_value = (5::nat), result_invalidate = None\<rparr>" 16 "0::nat" all]
  by (simp add: ResultHasInvalidateMethod_def preserved_def none_def all_def preserve_def
      areAllPreserved_def sps_count_def sps_insert_def sps_empty_def AllPassesID_def)

text \<open>
  C9. The default strategy does not look at the unit: for a result type without an
  \<open>invalidate\<close> member, the wrapper gives the same verdict on any two units.
\<close>

theorem default_invalidate_unit_independent:
  "\<not> ResultHasInvalidateMethod R \<Longrightarrow>
   AnalysisResultModel_invalidate (ResultModelT PassID R) U1 PA
     = AnalysisResultModel_invalidate (ResultModelT PassID R) U2 PA"
  by (simp add: ResultModelT_default)

theorem default_invalidate_unit_independent_witness:
  "\<not> ResultHasInvalidateMethod \<lparr>result_value = True, result_invalidate = None\<rparr>
   \<and> AnalysisResultModel_invalidate
        (ResultModelT 32 \<lparr>result_value = True, result_invalidate = None\<rparr>) ''f'' none
     = AnalysisResultModel_invalidate
        (ResultModelT 32 \<lparr>result_value = True, result_invalidate = None\<rparr>) ''g'' none"
  using default_invalidate_unit_independent
    [of "\<lparr>result_value = True, result_invalidate = None\<rparr>" 32 "''f''" none "''g''"]
  by (simp add: ResultHasInvalidateMethod_def)

section \<open>Invalidation sweeps and results that refuse eviction\<close>












section \<open>Registration and queries\<close>

text \<open>
  C8. In either manager, \<open>registerPass\<close> fails its assertion when the identity is
  already registered, and otherwise stores the analysis under its identity;
  \<open>getResult\<close> and \<open>invalidate<PassT>\<close> fail their assertions when the identity
  is not registered.
\<close>

theorem unregistered_or_duplicate_is_fatal:
  "(ModuleAnalysisPasses MAM (ID P) \<noteq> None \<longrightarrow>
      ModuleAnalysisManager_registerPass MAM P
        = Inl (AssertionFailed ''Registered the same analysis pass twice!''))
   \<and> (ModuleAnalysisPasses MAM (ID P) = None \<longrightarrow>
      (\<exists>MAM'. ModuleAnalysisManager_registerPass MAM P = Inr MAM'
         \<and> ModuleAnalysisPasses MAM' = (ModuleAnalysisPasses MAM)(ID P \<mapsto> P)
         \<and> ModuleAnalysisResults MAM' = ModuleAnalysisResults MAM))
   \<and> (ModuleAnalysisPasses MAM PassID = None \<longrightarrow>
      ModuleAnalysisManager_getResult MAM PassID M
        = Inl (AssertionFailed ''This analysis pass was not registered prior to being queried''))
   \<and> (ModuleAnalysisPasses MAM PassID = None \<longrightarrow>
      ModuleAnalysisManager_invalidate_pass MAM PassID M
        = Inl (AssertionFailed ''This analysis pass was not registered prior to being invalidated''))
   \<and> (FunctionAnalysisPasses FAM (ID Q) \<noteq> None \<longrightarrow>
      FunctionAnalysisManager_registerPass FAM Q
        = Inl (AssertionFailed ''Registered the same analysis pass twice!''))
   \<and> (FunctionAnalysisPasses FAM (ID Q) = None \<longrightarrow>
      (\<exists>FAM'. FunctionAnalysisManager_registerPass FAM Q = Inr FAM'
         \<and> FunctionAnalysisPasses FAM' = (FunctionAnalysisPasses FAM)(ID Q \<mapsto> Q)
         \<and> FunctionAnalysisResultLists FAM' = FunctionAnalysisResultLists FAM))
   \<and> (FunctionAnalysisPasses FAM PassID = None \<longrightarrow>
      FunctionAnalysisManager_getResult FAM PassID F
        = Inl (AssertionFailed ''This analysis pass was not registered prior to being queried''))
   \<and> (FunctionAnalysisPasses FAM PassID = None \<longrightarrow>
      FunctionAnalysisManager_invalidate_pass FAM PassID F
        = Inl (AssertionFailed ''This analysis pass was not registered prior to being invalidated''))"
  by (simp add: ModuleAnalysisManager_registerPass_def ModuleAnalysisManager_getResult_def
      ModuleAnalysisManager_invalidate_pass_def FunctionAnalysisManager_registerPass_def
      FunctionAnalysisManager_getResult_def FunctionAnalysisManager_invalidate_pass_def)

theorem unregistered_or_duplicate_is_fatal_witness:
  "ModuleAnalysisManager_registerPass
      \<lparr>ModuleAnalysisPasses = [64 \<mapsto> successor_analysis], ModuleAnalysisResults = Map.empty\<rparr>
      successor_analysis
     = Inl (AssertionFailed ''Registered the same analysis pass twice!'')
   \<and> ModuleAnalysisManager_registerPass
      \<lparr>ModuleAnalysisPasses = Map.empty, ModuleAnalysisResults = Map.empty\<rparr> successor_analysis
     = Inr \<lparr>ModuleAnalysisPasses = [64 \<mapsto> successor_analysis], ModuleAnalysisResults = Map.empty\<rparr>
   \<and> ModuleAnalysisManager_getResult
      \<lparr>ModuleAnalysisPasses = [64 \<mapsto> successor_analysis], ModuleAnalysisResults = Map.empty\<rparr> 65 0
     = Inl (AssertionFailed ''This analysis pass was not registered prior to being queried'')
   \<and> FunctionAnalysisManager_invalidate_pass
      \<lparr>FunctionAnalysisPasses = [64 \<mapsto> successor_analysis],
       FunctionAnalysisResultLists = Map.empty\<rparr> 65 0
     = Inl (AssertionFailed ''This analysis pass was not registered prior to being invalidated'')"
  using unregistered_or_duplicate_is_fatal
    [of "\<lparr>ModuleAnalysisPasses = [64 \<mapsto> successor_analysis], ModuleAnalysisResults = Map.empty\<rparr>"
        successor_analysis 65 0
        "\<lparr>FunctionAnalysisPasses = [64 \<mapsto> successor_analysis],
          FunctionAnalysisResultLists = Map.empty\<rparr>" successor_analysis 0]
    unregistered_or_duplicate_is_fatal [THEN conjunct2, THEN conjunct1,
      of "\<lparr>ModuleAnalysisPasses = Map.empty, ModuleAnalysisResults = Map.empty\<rparr>"
         successor_analysis]
  by (auto simp: successor_analysis_def)

section \<open>Caching of results\<close>

lemma module_getResult_cached:
  "ModuleAnalysisPasses MAM PassID \<noteq> None \<Longrightarrow> ModuleAnalysisResults MAM PassID = Some RC \<Longrightarrow>
   ModuleAnalysisManager_getResult MAM PassID M = Inr (Result RC, MAM)"
  by (simp add: ModuleAnalysisManager_getResult_def ModuleAnalysisManager_getResultImpl_def)

lemma module_getResult_fresh:
  "ModuleAnalysisPasses MAM PassID = Some P \<Longrightarrow> ModuleAnalysisResults MAM PassID = None \<Longrightarrow>
   ModuleAnalysisManager_getResult MAM PassID M =
     Inr (Result (fst (AnalysisPassModel_run P M)),
          MAM\<lparr>ModuleAnalysisPasses :=
                (ModuleAnalysisPasses MAM)(PassID \<mapsto> snd (AnalysisPassModel_run P M)),
              ModuleAnalysisResults :=
                (ModuleAnalysisResults MAM)(PassID \<mapsto> fst (AnalysisPassModel_run P M))\<rparr>)"
  by (simp add: ModuleAnalysisManager_getResult_def ModuleAnalysisManager_getResultImpl_def
      split: prod.splits)

lemma module_getResult_returns:
  assumes "ModuleAnalysisPasses MAM PassID \<noteq> None"
  shows "\<exists>R MAM1. ModuleAnalysisManager_getResult MAM PassID M = Inr (R, MAM1)"
  using assms
  by (auto simp: ModuleAnalysisManager_getResult_def ModuleAnalysisManager_getResultImpl_def
      split: option.splits prod.splits)

lemma module_getResult_twice:
  assumes "ModuleAnalysisPasses MAM PassID = Some P"
  shows "\<exists>R MAM1. ModuleAnalysisManager_getResult MAM PassID M = Inr (R, MAM1)
           \<and> ModuleAnalysisManager_getResult MAM1 PassID M = Inr (R, MAM1)
           \<and> (ModuleAnalysisResults MAM PassID = None \<longrightarrow>
                R = Result (fst (AnalysisPassModel_run P M))
                \<and> ModuleAnalysisPasses MAM1 PassID = Some (snd (AnalysisPassModel_run P M)))"
proof (cases "ModuleAnalysisResults MAM PassID")
  case None
  let ?MAM1 = "MAM\<lparr>ModuleAnalysisPasses :=
                      (ModuleAnalysisPasses MAM)(PassID \<mapsto> snd (AnalysisPassModel_run P M)),
                    ModuleAnalysisResults :=
                      (ModuleAnalysisResults MAM)(PassID \<mapsto> fst (AnalysisPassModel_run P M))\<rparr>"
  have first: "ModuleAnalysisManager_getResult MAM PassID M
                 = Inr (Result (fst (AnalysisPassModel_run P M)), ?MAM1)"
    using assms None by (rule module_getResult_fresh)
  have second: "ModuleAnalysisManager_getResult ?MAM1 PassID M
                 = Inr (Result (fst (AnalysisPassModel_run P M)), ?MAM1)"
    by (rule module_getResult_cached) simp_all
  from first second show ?thesis by simp
next
  case (Some RC)
  with assms have "ModuleAnalysisManager_getResult MAM PassID M = Inr (Result RC, MAM)"
    by (simp add: module_getResult_cached)
  with Some show ?thesis by simp
qed

lemma function_getResult_cached:
  "FunctionAnalysisPasses FAM PassID \<noteq> None \<Longrightarrow>
   FunctionAnalysisResults FAM (PassID, F) = Some RC \<Longrightarrow>
   FunctionAnalysisManager_getResult FAM PassID F = Inr (Result RC, FAM)"
  by (simp add: FunctionAnalysisManager_getResult_def FunctionAnalysisManager_getResultImpl_def)

lemma function_getResult_fresh:
  "FunctionAnalysisPasses FAM PassID = Some P \<Longrightarrow>
   FunctionAnalysisResults FAM (PassID, F) = None \<Longrightarrow>
   FunctionAnalysisManager_getResult FAM PassID F =
     Inr (Result (fst (AnalysisPassModel_run P F)),
          FAM\<lparr>FunctionAnalysisPasses :=
                (FunctionAnalysisPasses FAM)(PassID \<mapsto> snd (AnalysisPassModel_run P F)),
              FunctionAnalysisResultLists :=
                (FunctionAnalysisResultLists FAM)
                  (F \<mapsto> (case FunctionAnalysisResultLists FAM F of
                             None \<Rightarrow> []
                           | Some ResultList \<Rightarrow> ResultList)
                         @ [(PassID, fst (AnalysisPassModel_run P F))])\<rparr>)"
  by (simp add: FunctionAnalysisManager_getResult_def FunctionAnalysisManager_getResultImpl_def
      split: prod.splits)

lemma function_results_after_insert:
  "FunctionAnalysisResults FAM (PassID, F) = None \<Longrightarrow>
   FunctionAnalysisResults
     (FAM\<lparr>FunctionAnalysisPasses := Ps,
          FunctionAnalysisResultLists :=
            (FunctionAnalysisResultLists FAM)
              (F \<mapsto> (case FunctionAnalysisResultLists FAM F of
                         None \<Rightarrow> []
                       | Some ResultList \<Rightarrow> ResultList) @ [(PassID, RC)])\<rparr>) (PassID, F) = Some RC"
  by (auto simp: FunctionAnalysisResults_def map_add_def split: option.splits)

lemma function_getResult_twice:
  assumes "FunctionAnalysisPasses FAM PassID = Some P"
  shows "\<exists>R FAM1. FunctionAnalysisManager_getResult FAM PassID F = Inr (R, FAM1)
           \<and> FunctionAnalysisManager_getResult FAM1 PassID F = Inr (R, FAM1)
           \<and> (FunctionAnalysisResults FAM (PassID, F) = None \<longrightarrow>
                R = Result (fst (AnalysisPassModel_run P F))
                \<and> FunctionAnalysisPasses FAM1 PassID = Some (snd (AnalysisPassModel_run P F)))"
proof (cases "FunctionAnalysisResults FAM (PassID, F)")
  case None
  let ?FAM1 = "FAM\<lparr>FunctionAnalysisPasses :=
                      (FunctionAnalysisPasses FAM)(PassID \<mapsto> snd (AnalysisPassModel_run P F)),
                    FunctionAnalysisResultLists :=
                      (FunctionAnalysisResultLists FAM)
                        (F \<mapsto> (case FunctionAnalysisResultLists FAM F of
                                   None \<Rightarrow> []
                                 | Some ResultList \<Rightarrow> ResultList)
                               @ [(PassID, fst (AnalysisPassModel_run P F))])\<rparr>"
  have first: "FunctionAnalysisManager_getResult FAM PassID F
                 = Inr (Result (fst (AnalysisPassModel_run P F)), ?FAM1)"
    using assms None by (rule function_getResult_fresh)
  have "FunctionAnalysisResults ?FAM1 (PassID, F) = Some (fst (AnalysisPassModel_run P F))"
    using None by (rule function_results_after_insert)
  then have second: "FunctionAnalysisManager_getResult ?FAM1 PassID F
                 = Inr (Result (fst (AnalysisPassModel_run P F)), ?FAM1)"
    by (intro function_getResult_cached) simp_all
  from first second show ?thesis by simp
next
  case (Some RC)
  with assms have "FunctionAnalysisManager_getResult FAM PassID F = Inr (Result RC, FAM)"
    by (simp add: function_getResult_cached)
  with Some show ?thesis by simp
qed

lemma count_after_run:
  "snd (pass_state (snd (AnalysisPassModel_run (counting C) IR))) = 1"
  by (simp add: AnalysisPassModel_run_def counting_def split: prod.splits)

text \<open>
  C5. For a registered identity and a unit, two calls of \<open>getResult\<close> in a row both
  return, with the same result, and the second leaves the manager (the cache and the
  analysis objects) as the first left it. When nothing was cached for the pair before
  the first call, the result is that of one run of the analysis and the analysis object
  is as one run leaves it: an analysis that counts its runs shows the count 1 after both
  calls. This holds for the module-level and for the function-level manager.
\<close>

theorem getResult_twice_runs_once:
  "(ModuleAnalysisPasses MAM PassID = Some P \<longrightarrow>
      (\<exists>R MAM1. ModuleAnalysisManager_getResult MAM PassID M = Inr (R, MAM1)
           \<and> ModuleAnalysisManager_getResult MAM1 PassID M = Inr (R, MAM1)
           \<and> (ModuleAnalysisResults MAM PassID = None \<longrightarrow>
                R = Result (fst (AnalysisPassModel_run P M))
                \<and> ModuleAnalysisPasses MAM1 PassID = Some (snd (AnalysisPassModel_run P M)))))
   \<and> (FunctionAnalysisPasses FAM PassID' = Some Q \<longrightarrow>
      (\<exists>R FAM1. FunctionAnalysisManager_getResult FAM PassID' F = Inr (R, FAM1)
           \<and> FunctionAnalysisManager_getResult FAM1 PassID' F = Inr (R, FAM1)
           \<and> (FunctionAnalysisResults FAM (PassID', F) = None \<longrightarrow>
                R = Result (fst (AnalysisPassModel_run Q F))
                \<and> FunctionAnalysisPasses FAM1 PassID' = Some (snd (AnalysisPassModel_run Q F)))))
   \<and> (ModuleAnalysisPasses MAMc PassID = Some (counting C)
        \<and> ModuleAnalysisResults MAMc PassID = None \<longrightarrow>
      (\<exists>R MAM1 C'. ModuleAnalysisManager_getResult MAMc PassID Mc = Inr (R, MAM1)
           \<and> ModuleAnalysisManager_getResult MAM1 PassID Mc = Inr (R, MAM1)
           \<and> ModuleAnalysisPasses MAM1 PassID = Some C' \<and> snd (pass_state C') = 1))
   \<and> (FunctionAnalysisPasses FAMc PassID' = Some (counting D)
        \<and> FunctionAnalysisResults FAMc (PassID', Fc) = None \<longrightarrow>
      (\<exists>R FAM1 D'. FunctionAnalysisManager_getResult FAMc PassID' Fc = Inr (R, FAM1)
           \<and> FunctionAnalysisManager_getResult FAM1 PassID' Fc = Inr (R, FAM1)
           \<and> FunctionAnalysisPasses FAM1 PassID' = Some D' \<and> snd (pass_state D') = 1))"
proof -
  have a: "ModuleAnalysisPasses MAM PassID = Some P \<longrightarrow>
      (\<exists>R MAM1. ModuleAnalysisManager_getResult MAM PassID M = Inr (R, MAM1)
           \<and> ModuleAnalysisManager_getResult MAM1 PassID M = Inr (R, MAM1)
           \<and> (ModuleAnalysisResults MAM PassID = None \<longrightarrow>
                R = Result (fst (AnalysisPassModel_run P M))
                \<and> ModuleAnalysisPasses MAM1 PassID = Some (snd (AnalysisPassModel_run P M))))"
    using module_getResult_twice [of MAM PassID P M] by blast
  have b: "FunctionAnalysisPasses FAM PassID' = Some Q \<longrightarrow>
      (\<exists>R FAM1. FunctionAnalysisManager_getResult FAM PassID' F = Inr (R, FAM1)
           \<and> FunctionAnalysisManager_getResult FAM1 PassID' F = Inr (R, FAM1)
           \<and> (FunctionAnalysisResults FAM (PassID', F) = None \<longrightarrow>
                R = Result (fst (AnalysisPassModel_run Q F))
                \<and> FunctionAnalysisPasses FAM1 PassID' = Some (snd (AnalysisPassModel_run Q F))))"
    using function_getResult_twice [of FAM PassID' Q F] by blast
  have c: "ModuleAnalysisPasses MAMc PassID = Some (counting C)
        \<and> ModuleAnalysisResults MAMc PassID = None \<longrightarrow>
      (\<exists>R MAM1 C'. ModuleAnalysisManager_getResult MAMc PassID Mc = Inr (R, MAM1)
           \<and> ModuleAnalysisManager_getResult MAM1 PassID Mc = Inr (R, MAM1)
           \<and> ModuleAnalysisPasses MAM1 PassID = Some C' \<and> snd (pass_state C') = 1)"
    using module_getResult_twice [of MAMc PassID "counting C" Mc] count_after_run [of C Mc]
    by blast
  have d: "FunctionAnalysisPasses FAMc PassID' = Some (counting D)
        \<and> FunctionAnalysisResults FAMc (PassID', Fc) = None \<longrightarrow>
      (\<exists>R FAM1 D'. FunctionAnalysisManager_getResult FAMc PassID' Fc = Inr (R, FAM1)
           \<and> FunctionAnalysisManager_getResult FAM1 PassID' Fc = Inr (R, FAM1)
           \<and> FunctionAnalysisPasses FAM1 PassID' = Some D' \<and> snd (pass_state D') = 1)"
    using function_getResult_twice [of FAMc PassID' "counting D" Fc] count_after_run [of D Fc]
    by blast
  from a b c d show ?thesis by blast
qed

theorem getResult_twice_runs_once_witness:
  "ModuleAnalysisManager_getResult
       \<lparr>ModuleAnalysisPasses = [64 \<mapsto> counting successor_analysis],
        ModuleAnalysisResults = Map.empty\<rparr> 64 5
     = Inr (\<lparr>result_value = 6, result_invalidate = None\<rparr>,
            \<lparr>ModuleAnalysisPasses = [64 \<mapsto> (counting successor_analysis)\<lparr>pass_state := ((), 1)\<rparr>],
             ModuleAnalysisResults = [64 \<mapsto> AnalysisResultModel_false 64 \<lparr>result_value = 6, result_invalidate = None\<rparr>]\<rparr>)
   \<and> ModuleAnalysisManager_getResult
       \<lparr>ModuleAnalysisPasses = [64 \<mapsto> (counting successor_analysis)\<lparr>pass_state := ((), 1)\<rparr>],
        ModuleAnalysisResults = [64 \<mapsto> AnalysisResultModel_false 64 \<lparr>result_value = 6, result_invalidate = None\<rparr>]\<rparr> 64 5
     = Inr (\<lparr>result_value = 6, result_invalidate = None\<rparr>,
            \<lparr>ModuleAnalysisPasses = [64 \<mapsto> (counting successor_analysis)\<lparr>pass_state := ((), 1)\<rparr>],
             ModuleAnalysisResults = [64 \<mapsto> AnalysisResultModel_false 64 \<lparr>result_value = 6, result_invalidate = None\<rparr>]\<rparr>)"
  using getResult_twice_runs_once [THEN conjunct1,
      of "\<lparr>ModuleAnalysisPasses = [64 \<mapsto> counting successor_analysis],
           ModuleAnalysisResults = Map.empty\<rparr>" 64 "counting successor_analysis" 5]
  by (simp add: ModuleAnalysisManager_getResult_def ModuleAnalysisManager_getResultImpl_def
      AnalysisPassModel_run_def counting_def successor_analysis_def ResultModelT_def
      ResultHasInvalidateMethod_def)

section \<open>The proxy's result\<close>

text \<open>
  C1. \<open>Result::invalidate(M, PA)\<close> of the proxy: when \<open>PA\<close> does not preserve the
  proxy's identity, it returns true and the function-level manager is as \<open>clear()\<close>
  leaves it, with no cached result (dropped in bulk: \<open>clear()\<close> consults no result)
  and the registered analyses untouched; when \<open>PA\<close> preserves the proxy's identity, it
  returns false and the function-level manager is unchanged.
\<close>

theorem proxy_result_invalidate:
  "(\<not> preserved PA ProxyID \<longrightarrow>
      FunctionAnalysisModuleProxy_Result_invalidate ProxyID FAM M PA
        = (True, FunctionAnalysisManager_clear FAM))
   \<and> FunctionAnalysisResultLists (FunctionAnalysisManager_clear FAM) = Map.empty
   \<and> FunctionAnalysisPasses (FunctionAnalysisManager_clear FAM) = FunctionAnalysisPasses FAM
   \<and> (preserved PA ProxyID \<longrightarrow>
      FunctionAnalysisModuleProxy_Result_invalidate ProxyID FAM M PA = (False, FAM))"
  by (simp add: FunctionAnalysisModuleProxy_Result_invalidate_def FunctionAnalysisManager_clear_def)

theorem proxy_result_invalidate_witness:
  "\<not> preserved none 128
   \<and> FunctionAnalysisModuleProxy_Result_invalidate 128
       \<lparr>FunctionAnalysisPasses = [64 \<mapsto> successor_analysis],
        FunctionAnalysisResultLists = [3 \<mapsto> [(64, AnalysisResultModel_false 64 \<lparr>result_value = 4, result_invalidate = None\<rparr>)]]\<rparr>
       [3::nat] none
     = (True, \<lparr>FunctionAnalysisPasses = [64 \<mapsto> successor_analysis],
               FunctionAnalysisResultLists = Map.empty\<rparr>)
   \<and> preserved (preserve 128 none) 128
   \<and> FunctionAnalysisModuleProxy_Result_invalidate 128
       \<lparr>FunctionAnalysisPasses = [64 \<mapsto> successor_analysis],
        FunctionAnalysisResultLists = [3 \<mapsto> [(64, AnalysisResultModel_false 64 \<lparr>result_value = 4, result_invalidate = None\<rparr>)]]\<rparr>
       [3::nat] (preserve 128 none)
     = (False, \<lparr>FunctionAnalysisPasses = [64 \<mapsto> successor_analysis],
                FunctionAnalysisResultLists = [3 \<mapsto> [(64, AnalysisResultModel_false 64 \<lparr>result_value = 4, result_invalidate = None\<rparr>)]]\<rparr>)"
  using proxy_result_invalidate
    [of none 128
        "\<lparr>FunctionAnalysisPasses = [64 \<mapsto> successor_analysis],
          FunctionAnalysisResultLists = [3 \<mapsto> [(64, AnalysisResultModel_false 64 \<lparr>result_value = 4, result_invalidate = None\<rparr>)]]\<rparr>"
        "[3::nat]"]
    proxy_result_invalidate
    [of "preserve 128 none" 128
        "\<lparr>FunctionAnalysisPasses = [64 \<mapsto> successor_analysis],
          FunctionAnalysisResultLists = [3 \<mapsto> [(64, AnalysisResultModel_false 64 \<lparr>result_value = 4, result_invalidate = None\<rparr>)]]\<rparr>"
        "[3::nat]"]
  by (simp add: FunctionAnalysisManager_clear_def preserved_def preserve_def none_def
      areAllPreserved_def sps_count_def sps_insert_def sps_empty_def AllPassesID_def)

section \<open>The adaptor from modules to functions\<close>

lemma run_over_Cons:
  "run_over P (F # Fs) =
     (fst (FunctionPassT_run P F) # fst (run_over (snd (FunctionPassT_run P F)) Fs),
      snd (run_over (snd (FunctionPassT_run P F)) Fs))"
  by (simp split: prod.splits)

lemma adaptor_loop_run_over:
  "adaptor_loop Fs P PA = (foldl intersect PA (fst (run_over P Fs)), snd (run_over P Fs))"
  by (induction Fs arbitrary: P PA) (auto split: prod.splits)

lemma length_run_over: "length (fst (run_over P Fs)) = length Fs"
proof (induction Fs arbitrary: P)
  case Nil
  show ?case by simp
next
  case (Cons F Fs)
  show ?case
    using Cons.IH [of "snd (FunctionPassT_run P F)"]
    by (simp add: run_over_Cons del: run_over.simps(2))
qed

lemma fp_run_logged_state: "fp_run (logged (P\<lparr>fp_state := x\<rparr>)) = fp_run (logged P)"
  by (simp add: logged_def)

lemma run_over_logged_gen:
  "fp_run L = fp_run (logged P) \<Longrightarrow> fp_state L = (fp_state P, l) \<Longrightarrow>
   fst (run_over L Fs) = fst (run_over P Fs)
   \<and> fp_state (snd (run_over L Fs)) = (fp_state (snd (run_over P Fs)), l @ Fs)"
proof (induction Fs arbitrary: L P l)
  case Nil
  then show ?case by simp
next
  case (Cons F Fs)
  obtain PA p' where step: "fp_run P (fp_state P) F = (PA, p')"
    by (cases "fp_run P (fp_state P) F")
  have runP: "FunctionPassT_run P F = (PA, P\<lparr>fp_state := p'\<rparr>)"
    using step by (simp add: FunctionPassT_run_def)
  have runL: "FunctionPassT_run L F = (PA, L\<lparr>fp_state := (p', l @ [F])\<rparr>)"
    using step Cons.prems by (simp add: FunctionPassT_run_def logged_def)
  have "fst (run_over (L\<lparr>fp_state := (p', l @ [F])\<rparr>) Fs) = fst (run_over (P\<lparr>fp_state := p'\<rparr>) Fs)
        \<and> fp_state (snd (run_over (L\<lparr>fp_state := (p', l @ [F])\<rparr>) Fs))
            = (fp_state (snd (run_over (P\<lparr>fp_state := p'\<rparr>) Fs)), (l @ [F]) @ Fs)"
    by (rule Cons.IH) (simp_all add: Cons.prems fp_run_logged_state)
  then show ?case
    using runP runL by (simp add: run_over_Cons del: run_over.simps(2))
qed

lemma run_over_logged:
  "fst (run_over (logged P) Fs) = fst (run_over P Fs)
   \<and> fp_state (snd (run_over (logged P) Fs)) = (fp_state (snd (run_over P Fs)), Fs)"
  using run_over_logged_gen [of "logged P" P "[]" Fs] by (simp add: logged_def)

lemma adaptor_run_returns:
  assumes "Adaptor_MAM A = None
           \<or> (\<exists>mam. Adaptor_MAM A = Some mam \<and> ModuleAnalysisPasses mam ProxyID \<noteq> None)"
  shows "\<exists>MAM'. ModuleToFunctionPassAdaptor_run ProxyID A M
           = Inr (preserve ProxyID (foldl intersect all (fst (run_over (Adaptor_Pass A) M))),
                  \<lparr>Adaptor_Pass = snd (run_over (Adaptor_Pass A) M), Adaptor_MAM = MAM'\<rparr>)"
proof (cases "Adaptor_MAM A")
  case None
  then show ?thesis
    by (simp add: ModuleToFunctionPassAdaptor_run_def adaptor_loop_run_over)
next
  case (Some mam)
  with assms have "ModuleAnalysisPasses mam ProxyID \<noteq> None" by simp
  then obtain R mam' where "ModuleAnalysisManager_getResult mam ProxyID M = Inr (R, mam')"
    using module_getResult_returns [of mam ProxyID M] by blast
  with Some show ?thesis
    by (simp add: ModuleToFunctionPassAdaptor_run_def adaptor_loop_run_over)
qed

text \<open>
  What holds of \<open>run\<close> whatever \<open>intersect\<close> does: when the adaptor has no
  module-level manager, or one in which the proxy is registered, \<open>run(M)\<close> returns the
  fold of \<open>intersect\<close>, from \<open>all()\<close>, over the sets the pass returned on the
  functions of \<open>M\<close> in the module's order, with the proxy's identity marked
  preserved, and a pass that logs its runs has logged exactly the functions of \<open>M\<close>,
  each once and in order.
\<close>

lemma adaptor_run_calls_in_order:
  assumes "Adaptor_MAM A = None
           \<or> (\<exists>mam. Adaptor_MAM A = Some mam \<and> ModuleAnalysisPasses mam ProxyID \<noteq> None)"
  shows "\<exists>A'. ModuleToFunctionPassAdaptor_run ProxyID
               \<lparr>Adaptor_Pass = logged (Adaptor_Pass A), Adaptor_MAM = Adaptor_MAM A\<rparr> M
            = Inr (preserve ProxyID (foldl intersect all (fst (run_over (Adaptor_Pass A) M))), A')
          \<and> snd (fp_state (Adaptor_Pass A')) = M
          \<and> length (fst (run_over (Adaptor_Pass A) M)) = length M"
proof -
  have "\<exists>MAM'. ModuleToFunctionPassAdaptor_run ProxyID
               \<lparr>Adaptor_Pass = logged (Adaptor_Pass A), Adaptor_MAM = Adaptor_MAM A\<rparr> M
           = Inr (preserve ProxyID (foldl intersect all (fst (run_over (logged (Adaptor_Pass A)) M))),
                  \<lparr>Adaptor_Pass = snd (run_over (logged (Adaptor_Pass A)) M), Adaptor_MAM = MAM'\<rparr>)"
    using assms
      adaptor_run_returns [of "\<lparr>Adaptor_Pass = logged (Adaptor_Pass A), Adaptor_MAM = Adaptor_MAM A\<rparr>"
        ProxyID M]
    by simp
  then show ?thesis
    by (auto simp: run_over_logged length_run_over)
qed

text \<open>
  C3. The claim is that \<open>run(M)\<close> runs the pass once per function of \<open>M\<close>, in order,
  and returns the intersection of the sets the pass returned, with the proxy's identity
  marked preserved. The runs are as claimed, but the returned set is not the
  intersection, because \<open>run\<close> combines the sets with \<open>intersect\<close> (see C4): for a
  module with the functions \<open>F1\<close> and \<open>F2\<close> and a pass that preserves the analyses 1
  and 2 on \<open>F1\<close> and the analysis 3 on \<open>F2\<close>, the pass is run on \<open>F1\<close>, then on
  \<open>F2\<close>, and the returned set preserves the analysis 2 beside the proxy (here 128),
  although the set returned on \<open>F2\<close> does not preserve 2.
\<close>

theorem adaptor_run_keeps_unpreserved_identity:
  "ModuleToFunctionPassAdaptor_run 128
       \<lparr>Adaptor_Pass = logged selective_pass,
        Adaptor_MAM = (None :: (string Module, nat, unit) ModuleAnalysisManager option)\<rparr>
       [''F1'', ''F2'']
     = Inr (\<lparr>PreservedPassIDs = SmallPtrSet True [2, 128]\<rparr>,
            \<lparr>Adaptor_Pass = (logged selective_pass)\<lparr>fp_state := ((), [''F1'', ''F2''])\<rparr>,
             Adaptor_MAM = None\<rparr>)
   \<and> fst (fp_run selective_pass () ''F1'') = \<lparr>PreservedPassIDs = SmallPtrSet True [1, 2]\<rparr>
   \<and> fst (fp_run selective_pass () ''F2'') = \<lparr>PreservedPassIDs = SmallPtrSet True [3]\<rparr>
   \<and> preserved \<lparr>PreservedPassIDs = SmallPtrSet True [2, 128]\<rparr> 2
   \<and> \<not> preserved (fst (fp_run selective_pass () ''F2'')) 2"
  by (simp add: ModuleToFunctionPassAdaptor_run_def FunctionPassT_run_def logged_def
      selective_pass_def intersect_def none_def all_def areAllPreserved_def sps_count_def
      sps_insert_def sps_erase_def sps_empty_def preserve_def preserved_def AllPassesID_def)

text \<open>
  C10. For a module without functions (and an adaptor with no module-level manager, or
  one in which the proxy is registered), \<open>run\<close> returns \<open>all()\<close>, a set in the All
  state in which every identity is preserved, and leaves the pass as it was: a pass
  that logs its runs has an empty log.
\<close>

theorem adaptor_run_empty_module:
  assumes "Adaptor_MAM A = None
           \<or> (\<exists>mam. Adaptor_MAM A = Some mam \<and> ModuleAnalysisPasses mam ProxyID \<noteq> None)"
  shows "(\<exists>MAM'. ModuleToFunctionPassAdaptor_run ProxyID A []
            = Inr (all, \<lparr>Adaptor_Pass = Adaptor_Pass A, Adaptor_MAM = MAM'\<rparr>))
    \<and> areAllPreserved all
    \<and> (\<forall>p. preserved all p)
    \<and> (\<exists>MAM'. ModuleToFunctionPassAdaptor_run ProxyID
               \<lparr>Adaptor_Pass = logged (Adaptor_Pass A), Adaptor_MAM = Adaptor_MAM A\<rparr> []
            = Inr (all, \<lparr>Adaptor_Pass = logged (Adaptor_Pass A), Adaptor_MAM = MAM'\<rparr>))
    \<and> snd (fp_state (logged (Adaptor_Pass A))) = []"
proof -
  have keep: "preserve ProxyID all = all"
    by (simp add: preserve_def areAllPreserved_all)
  have one: "\<exists>MAM'. ModuleToFunctionPassAdaptor_run ProxyID A []
            = Inr (all, \<lparr>Adaptor_Pass = Adaptor_Pass A, Adaptor_MAM = MAM'\<rparr>)"
    using adaptor_run_returns [OF assms, of "[]"] by (simp add: keep)
  have two: "\<exists>MAM'. ModuleToFunctionPassAdaptor_run ProxyID
               \<lparr>Adaptor_Pass = logged (Adaptor_Pass A), Adaptor_MAM = Adaptor_MAM A\<rparr> []
            = Inr (all, \<lparr>Adaptor_Pass = logged (Adaptor_Pass A), Adaptor_MAM = MAM'\<rparr>)"
    using assms
      adaptor_run_returns [of "\<lparr>Adaptor_Pass = logged (Adaptor_Pass A), Adaptor_MAM = Adaptor_MAM A\<rparr>"
        ProxyID "[]"]
    by (simp add: keep)
  from one two show ?thesis
    by (simp add: areAllPreserved_all preserved_all logged_def)
qed

theorem adaptor_run_empty_module_witness:
  "ModuleToFunctionPassAdaptor_run 128
       \<lparr>Adaptor_Pass = logged none_pass,
        Adaptor_MAM = (None :: (string Module, nat, unit) ModuleAnalysisManager option)\<rparr> []
     = Inr (\<lparr>PreservedPassIDs = SmallPtrSet True [AllPassesID]\<rparr>,
            \<lparr>Adaptor_Pass = logged none_pass, Adaptor_MAM = None\<rparr>)
   \<and> fp_state (logged none_pass) = ((), [])
   \<and> preserved \<lparr>PreservedPassIDs = SmallPtrSet True [AllPassesID]\<rparr> 128
   \<and> preserved \<lparr>PreservedPassIDs = SmallPtrSet True [AllPassesID]\<rparr> 64"
  using adaptor_run_empty_module
    [of "\<lparr>Adaptor_Pass = none_pass,
          Adaptor_MAM = (None :: (string Module, nat, unit) ModuleAnalysisManager option)\<rparr>" 128]
  by (simp add: ModuleToFunctionPassAdaptor_run_def logged_def none_pass_def all_def
      areAllPreserved_def sps_count_def sps_insert_def sps_empty_def preserve_def
      preserved_def)

end
